theory Spec2Isabelle
  imports Complex_Main "HOL-Library.Word"
begin

unbundle bit_operations_syntax

section \<open>JavaScript values\<close>

text \<open>
  A JavaScript string is a sequence of UTF-16 code units. String literals of the source
  are ASCII and are written through \<open>js\<close>.
\<close>

type_synonym code_unit = "16 word"
type_synonym js_string = "code_unit list"
type_synonym byte = "8 word"

definition js :: "string \<Rightarrow> js_string" where
  "js s = map (\<lambda>c. of_nat (of_char c)) s"

text \<open>
  A thrown value: the name of the error and its \<open>message\<close> property
  (\<open>None\<close> when the thrown value has no message).
\<close>

datatype js_error = JsError (err_name: js_string) (err_message: "js_string option")

text \<open>
  The outcome of running a statement block on a state: \<open>Inr s'\<close> is normal completion
  in state \<open>s'\<close>, \<open>Inl (e, s')\<close> is the exception \<open>e\<close> thrown in state \<open>s'\<close>
  (assignments made before the throw persist).
\<close>

type_synonym 's outcome = "(js_error \<times> 's) + 's"

definition try_catch :: "'s outcome \<Rightarrow> (js_error \<Rightarrow> 's \<Rightarrow> 's outcome) \<Rightarrow> 's outcome" where
  "try_catch body handler = (case body of Inl (e, s') \<Rightarrow> handler e s' | Inr s' \<Rightarrow> Inr s')"

definition try_finally :: "'s outcome \<Rightarrow> ('s \<Rightarrow> 's) \<Rightarrow> 's outcome" where
  "try_finally body fin = (case body of Inl (e, s') \<Rightarrow> Inl (e, fin s') | Inr s' \<Rightarrow> Inr (fin s'))"

text \<open>Sequencing: the next statement runs only after normal completion.\<close>

definition then_do :: "'s outcome \<Rightarrow> ('s \<Rightarrow> 's outcome) \<Rightarrow> 's outcome" where
  "then_do r k = (case r of Inl es \<Rightarrow> Inl es | Inr s \<Rightarrow> k s)"

text \<open>
  \<open>String.prototype.trim\<close> removes leading and trailing white space and line
  terminators: TAB, LF, VT, FF, CR, SP, NBSP, the Unicode space separators and the byte
  order mark, all of them single code units.
\<close>

definition is_white_space :: "code_unit \<Rightarrow> bool" where
  "is_white_space c =
     (c \<in> {0x9, 0xA, 0xB, 0xC, 0xD, 0x20, 0xA0, 0x1680, 0x2028, 0x2029, 0x202F, 0x205F,
            0x3000, 0xFEFF}
      \<or> (0x2000 \<le> c \<and> c \<le> 0x200A))"

definition trim :: "js_string \<Rightarrow> js_string" where
  "trim s = rev (dropWhile is_white_space (rev (dropWhile is_white_space s)))"

section \<open>services/geminiService: generateCaribbeanSpeech\<close>

datatype VoiceName = Kore | Puck | Charon | Fenrir | Zephyr

record TTSRequest =
  req_text :: js_string
  voiceName :: VoiceName

text \<open>
  The argument of \<open>ai.models.generateContent\<close>: the model name, the single text part
  of \<open>contents\<close>, and the prebuilt voice of \<open>config.speechConfig\<close>.
\<close>

record GenerateContentParameters =
  model :: js_string
  prompt :: js_string
  prebuiltVoice :: VoiceName

text \<open>
  The response, with every optional property of the SDK's types as an option
  (\<open>None\<close> is \<open>undefined\<close>) and arrays as lists.
\<close>

record Blob =
  data :: "js_string option"

record Part =
  inlineData :: "Blob option"

record Content =
  parts :: "Part list option"

record Candidate =
  content :: "Content option"

record GenerateContentResponse =
  candidates :: "Candidate list option"

text \<open>\<open>a?.[0]\<close> on an optional array: \<open>undefined\<close> when the array is absent or empty.\<close>

definition opt_first :: "'a list option \<Rightarrow> 'a option" where
  "opt_first a = (case a of None \<Rightarrow> None | Some [] \<Rightarrow> None | Some (x # _) \<Rightarrow> Some x)"

text \<open>\<open>o?.f\<close> where property \<open>f\<close> is itself optional.\<close>

definition opt_chain :: "'a option \<Rightarrow> ('a \<Rightarrow> 'b option) \<Rightarrow> 'b option" where
  "opt_chain v f = (case v of None \<Rightarrow> None | Some x \<Rightarrow> f x)"

definition mk_parameters :: "TTSRequest \<Rightarrow> GenerateContentParameters" where
  "mk_parameters r =
     \<lparr> model = js ''gemini-2.5-flash-preview-tts'',
       prompt = js ''Say in a rich, warm Caribbean English accent: '' @ req_text r,
       prebuiltVoice = voiceName r \<rparr>"

text \<open>
  The part of \<open>generateCaribbeanSpeech\<close> after \<open>await ai.models.generateContent(...)\<close>:
  a rejection of the remote call propagates, a response goes through the optional chain
  \<open>response.candidates?.[0]?.content?.parts?.[0]?.inlineData?.data\<close>.
\<close>

definition extract_audio :: "GenerateContentResponse \<Rightarrow> js_string option" where
  "extract_audio response =
     opt_chain (opt_chain (opt_first (opt_chain (opt_chain (opt_first (candidates response))
       content) parts)) inlineData) data"

definition generateCaribbeanSpeech_resume ::
  "js_error + GenerateContentResponse \<Rightarrow> js_error + js_string option" where
  "generateCaribbeanSpeech_resume r =
     (case r of Inl e \<Rightarrow> Inl e | Inr response \<Rightarrow> Inr (extract_audio response))"

text \<open>
  The whole call, the remote model being a function from the request to a rejection or
  a response.
\<close>

definition generateCaribbeanSpeech ::
  "(GenerateContentParameters \<Rightarrow> js_error + GenerateContentResponse) \<Rightarrow> TTSRequest
     \<Rightarrow> js_error + js_string option" where
  "generateCaribbeanSpeech remote r = generateCaribbeanSpeech_resume (remote (mk_parameters r))"

text \<open>
  The chain is absent at some level: no candidates array, an empty one, a first candidate
  without content, content without parts, an empty parts array, a first part without
  inline data, or inline data without data.
\<close>

definition audio_absent :: "GenerateContentResponse \<Rightarrow> bool" where
  "audio_absent response =
     (case candidates response of
        None \<Rightarrow> True
      | Some [] \<Rightarrow> True
      | Some (c # _) \<Rightarrow>
          (case content c of
             None \<Rightarrow> True
           | Some ct \<Rightarrow>
               (case parts ct of
                  None \<Rightarrow> True
                | Some [] \<Rightarrow> True
                | Some (p # _) \<Rightarrow>
                    (case inlineData p of
                       None \<Rightarrow> True
                     | Some b \<Rightarrow> data b = None))))"

section \<open>utils/audio: the decoder\<close>

text \<open>
  Modelled from the spec: the module \<open>./utils/audio\<close>, from which the application
  imports \<open>decode\<close> and \<open>decodeAudioData\<close>, is not among the sources. The two functions
  are the spec's \<open>decodeBase64\<close> (standard base64 decoding to raw bytes, failing with
  DecodeError on a character outside the alphabet or on invalid padding) and
  \<open>toAudioBuffer\<close> (each consecutive little-endian byte pair read as a signed 16-bit
  integer and divided by 32768.0; a trailing odd byte is discarded; 24000 Hz, mono).
  The quotient of a 16-bit integer by \<open>2 ^ 15\<close> is exact in binary floating point, so
  the samples are modelled as reals without rounding.
\<close>

definition DecodeError :: js_error where
  "DecodeError = JsError (js ''DecodeError'') None"

definition b64_pad :: code_unit where
  "b64_pad = 0x3D"

text \<open>The value of a character of the alphabet: A-Z, a-z, 0-9, plus and slash.\<close>

definition b64_value :: "code_unit \<Rightarrow> nat option" where
  "b64_value c =
     (if 0x41 \<le> c \<and> c \<le> 0x5A then Some (unat c - 0x41)
      else if 0x61 \<le> c \<and> c \<le> 0x7A then Some (unat c - 0x61 + 26)
      else if 0x30 \<le> c \<and> c \<le> 0x39 then Some (unat c - 0x30 + 52)
      else if c = 0x2B then Some 62
      else if c = 0x2F then Some 63
      else None)"

text \<open>The three bytes of a group of four 6-bit values.\<close>

definition quantum_bytes :: "nat \<Rightarrow> nat \<Rightarrow> nat \<Rightarrow> nat \<Rightarrow> byte list" where
  "quantum_bytes a b c d =
     (let n = ((a * 64 + b) * 64 + c) * 64 + d
      in [of_nat (n div 65536), of_nat (n div 256 mod 256), of_nat (n mod 256)])"

text \<open>
  Groups of four characters; only the last group may end in one or two padding
  characters, which stand for two or one bytes.
\<close>

fun decode_quanta :: "js_string \<Rightarrow> byte list option" where
  "decode_quanta [] = Some []"
| "decode_quanta [a, b, c, d] =
     (case b64_value a of
        None \<Rightarrow> None
      | Some va \<Rightarrow>
          (case b64_value b of
             None \<Rightarrow> None
           | Some vb \<Rightarrow>
               (if c = b64_pad \<and> d = b64_pad then Some (take 1 (quantum_bytes va vb 0 0))
                else (case b64_value c of
                        None \<Rightarrow> None
                      | Some vc \<Rightarrow>
                          (if d = b64_pad then Some (take 2 (quantum_bytes va vb vc 0))
                           else (case b64_value d of
                                   None \<Rightarrow> None
                                 | Some vd \<Rightarrow> Some (quantum_bytes va vb vc vd)))))))"
| "decode_quanta (a # b # c # d # rest) =
     (case b64_value a of
        None \<Rightarrow> None
      | Some va \<Rightarrow>
          (case b64_value b of
             None \<Rightarrow> None
           | Some vb \<Rightarrow>
               (case b64_value c of
                  None \<Rightarrow> None
                | Some vc \<Rightarrow>
                    (case b64_value d of
                       None \<Rightarrow> None
                     | Some vd \<Rightarrow>
                         (case decode_quanta rest of
                            None \<Rightarrow> None
                          | Some bs \<Rightarrow> Some (quantum_bytes va vb vc vd @ bs))))))"
| "decode_quanta _ = None"

definition decodeBase64 :: "js_string \<Rightarrow> js_error + byte list" where
  "decodeBase64 payload =
     (case decode_quanta payload of None \<Rightarrow> Inl DecodeError | Some bs \<Rightarrow> Inr bs)"

record AudioBuffer =
  sampleRate :: nat
  numberOfChannels :: nat
  channelData :: "real list"

definition int16_le :: "byte \<Rightarrow> byte \<Rightarrow> int" where
  "int16_le lo hi = sint (word_cat hi lo :: 16 word)"

fun pcm_samples :: "byte list \<Rightarrow> real list" where
  "pcm_samples (lo # hi # rest) = real_of_int (int16_le lo hi) / 32768 # pcm_samples rest"
| "pcm_samples _ = []"

definition toAudioBuffer :: "byte list \<Rightarrow> AudioBuffer" where
  "toAudioBuffer samples =
     \<lparr> sampleRate = 24000, numberOfChannels = 1, channelData = pcm_samples samples \<rparr>"

definition decode_pipeline :: "js_string \<Rightarrow> js_error + AudioBuffer" where
  "decode_pipeline payload =
     (case decodeBase64 payload of Inl e \<Rightarrow> Inl e | Inr bytes \<Rightarrow> Inr (toAudioBuffer bytes))"

text \<open>
  The spec's words for a well-formed input, stated apart from the decoder: the 64
  characters of the alphabet, and padding that completes the length to a multiple of
  four with at most two padding characters, all at the very end.
\<close>

definition b64_alphabet :: js_string where
  "b64_alphabet = js ''ABCDEFGHIJKLMNOPQRSTUVWXYZabcdefghijklmnopqrstuvwxyz0123456789+/''"

definition valid_padding :: "js_string \<Rightarrow> bool" where
  "valid_padding payload =
     (length payload mod 4 = 0
      \<and> b64_pad \<notin> set (take (length payload - 2) payload)
      \<and> (case drop (length payload - 2) payload of
           [y, z] \<Rightarrow> y = b64_pad \<longrightarrow> z = b64_pad
         | _ \<Rightarrow> True))"

definition valid_base64 :: "js_string \<Rightarrow> bool" where
  "valid_base64 payload =
     ((\<forall>c \<in> set payload. c \<in> set b64_alphabet \<or> c = b64_pad) \<and> valid_padding payload)"

section \<open>The audio platform\<close>

text \<open>
  What the application uses of the Web Audio API. An \<open>AudioBufferSourceNode\<close> is
  created unstarted; \<open>start()\<close> makes it audible; \<open>stop()\<close> on a started node halts
  its output and throws InvalidStateError on a node that was never started; a second
  \<open>stop()\<close> is accepted. The platform dispatches the \<open>ended\<close> event of a node once,
  when the node has stopped playing: because the buffer was played to its end, or because
  \<open>stop()\<close> was called. Nodes live in a store and are referred to by their index, since
  the application and the platform hold references to the same node.
\<close>

record AudioContext =
  ctx_sampleRate :: nat

datatype node_status = Unstarted | Started | Stopped | Ended

text \<open>The only event handler of the application: \<open>() => { setIsPlaying(false); }\<close>.\<close>

datatype handler = SetIsPlayingFalse

record AudioBufferSourceNode =
  buffer :: "AudioBuffer option"
  connected :: bool
  status :: node_status
  onended :: "handler option"

definition InvalidStateError :: js_error where
  "InvalidStateError = JsError (js ''InvalidStateError'') None"

definition node_start :: "AudioBufferSourceNode \<Rightarrow> js_error + AudioBufferSourceNode" where
  "node_start nd =
     (case status nd of
        Unstarted \<Rightarrow> Inr (nd\<lparr>status := Started\<rparr>)
      | Started \<Rightarrow> Inl InvalidStateError
      | Stopped \<Rightarrow> Inl InvalidStateError
      | Ended \<Rightarrow> Inl InvalidStateError)"

definition node_stop :: "AudioBufferSourceNode \<Rightarrow> js_error + AudioBufferSourceNode" where
  "node_stop nd =
     (case status nd of
        Unstarted \<Rightarrow> Inl InvalidStateError
      | Started \<Rightarrow> Inr (nd\<lparr>status := Stopped\<rparr>)
      | Stopped \<Rightarrow> Inr nd
      | Ended \<Rightarrow> Inr nd)"

section \<open>App.tsx: the component state\<close>

text \<open>
  The five \<open>useState\<close> cells, the two refs, the store of source nodes, and the trace of
  what the component did to the outside: the requests issued to the speech service, the
  values logged with \<open>console.error\<close>, the nodes whose \<open>onended\<close> handler was run, and
  the number of \<open>handleGenerate\<close> calls suspended at their \<open>await\<close>.
\<close>

record app =
  text_state :: js_string
  isGenerating :: bool
  isPlaying :: bool
  selectedVoice :: VoiceName
  error :: "js_string option"
  audioContextRef :: "AudioContext option"
  sourceRef :: "nat option"
  nodes :: "AudioBufferSourceNode list"
  requests :: "GenerateContentParameters list"
  console :: "js_error list"
  ended_calls :: "nat list"
  suspended :: nat

definition initial :: app where
  "initial =
     \<lparr> text_state = [], isGenerating = False, isPlaying = False, selectedVoice = Kore,
       error = None, audioContextRef = None, sourceRef = None, nodes = [], requests = [],
       console = [], ended_calls = [], suspended = 0 \<rparr>"

text \<open>
  A method call on the node at address \<open>n\<close>. Every reference the component holds is the
  address of a node of the store; an address outside the store has no node to act on.
\<close>

definition call_node ::
  "(AudioBufferSourceNode \<Rightarrow> js_error + AudioBufferSourceNode) \<Rightarrow> nat \<Rightarrow> app \<Rightarrow> app outcome" where
  "call_node method n s =
     (if n < length (nodes s)
      then (case method (nodes s ! n) of
              Inl e \<Rightarrow> Inl (e, s)
            | Inr nd \<Rightarrow> Inr (s\<lparr>nodes := (nodes s)[n := nd]\<rparr>))
      else Inr s)"

section \<open>App.tsx: stopPlayback\<close>

definition stopPlayback :: "app \<Rightarrow> app outcome" where
  "stopPlayback s =
     then_do
       (case sourceRef s of
          None \<Rightarrow> Inr s
        | Some n \<Rightarrow>
            then_do (try_catch (call_node node_stop n s) (\<lambda>e s'. Inr s'))
              (\<lambda>s1. Inr (s1\<lparr>sourceRef := None\<rparr>)))
       (\<lambda>s2. Inr (s2\<lparr>isPlaying := False\<rparr>))"

section \<open>App.tsx: handleGenerate\<close>

text \<open>
  An async function either returns (or throws) before its first \<open>await\<close>, or is suspended
  there with the call it awaits.
\<close>

datatype suspension = Returned "app outcome" | Awaiting GenerateContentParameters app

text \<open>Lines 38 to 48: up to the call of \<open>generateCaribbeanSpeech\<close>.\<close>

definition handleGenerate_begin :: "app \<Rightarrow> suspension" where
  "handleGenerate_begin s =
     (if trim (text_state s) = []
      then Returned (Inr (s\<lparr>error := Some (js ''Please enter some text first.'')\<rparr>))
      else (case stopPlayback (s\<lparr>error := None, isGenerating := True\<rparr>) of
              Inl es \<Rightarrow> Returned (Inl es)
            | Inr s1 \<Rightarrow>
                (let p = mk_parameters \<lparr>req_text = text_state s, voiceName = selectedVoice s\<rparr>
                 in Awaiting p (s1\<lparr>requests := requests s1 @ [p],
                                   suspended := suspended s1 + 1\<rparr>))))"

text \<open>
  Lines 58 to 62: the context is created once. The constructor is the platform's; whether
  it throws, and what, is given by \<open>ctor\<close>.
\<close>

definition ensure_context :: "js_error option \<Rightarrow> app \<Rightarrow> app outcome" where
  "ensure_context ctor s =
     (case audioContextRef s of
        Some _ \<Rightarrow> Inr s
      | None \<Rightarrow>
          (case ctor of
             Some e \<Rightarrow> Inl (e, s)
           | None \<Rightarrow> Inr (s\<lparr>audioContextRef := Some \<lparr>ctx_sampleRate = 24000\<rparr>\<rparr>)))"

text \<open>
  Lines 72 to 82: the new node gets the buffer, the connection to the destination and the
  handler, is stored in the ref and started.
\<close>

definition play_buffer :: "AudioBuffer \<Rightarrow> app \<Rightarrow> app outcome" where
  "play_buffer audioBuffer s =
     (let n = length (nodes s);
          source = \<lparr> buffer = Some audioBuffer, connected = True, status = Unstarted,
                     onended = Some SetIsPlayingFalse \<rparr>
      in then_do (call_node node_start n (s\<lparr>nodes := nodes s @ [source], sourceRef := Some n\<rparr>))
           (\<lambda>s'. Inr (s'\<lparr>isPlaying := True\<rparr>)))"

text \<open>
  The body of the \<open>try\<close> block from the point where the awaited call settles with \<open>r\<close>.
  The second \<open>await\<close>, on the decoder, yields no control to other events: the decoder
  does its work synchronously.
\<close>

definition handleGenerate_try ::
  "js_error + GenerateContentResponse \<Rightarrow> js_error option \<Rightarrow> app \<Rightarrow> app outcome" where
  "handleGenerate_try r ctor s =
     (case generateCaribbeanSpeech_resume r of
        Inl e \<Rightarrow> Inl (e, s)
      | Inr None \<Rightarrow> Inl (JsError (js ''Error'') (Some (js ''Failed to generate audio data.'')), s)
      | Inr (Some base64Audio) \<Rightarrow>
          (if base64Audio = []
           then Inl (JsError (js ''Error'') (Some (js ''Failed to generate audio data.'')), s)
           else then_do (ensure_context ctor s)
                  (\<lambda>s1. case decodeBase64 base64Audio of
                           Inl e \<Rightarrow> Inl (e, s1)
                         | Inr bytes \<Rightarrow> play_buffer (toAudioBuffer bytes) s1)))"

text \<open>Lines 83 to 85: \<open>err.message || "An error occurred during speech generation."\<close>.\<close>

definition error_text :: "js_error \<Rightarrow> js_string" where
  "error_text err =
     (case err_message err of
        None \<Rightarrow> js ''An error occurred during speech generation.''
      | Some m \<Rightarrow> if m = [] then js ''An error occurred during speech generation.'' else m)"

definition handleGenerate_catch :: "js_error \<Rightarrow> app \<Rightarrow> app outcome" where
  "handleGenerate_catch err s =
     Inr (s\<lparr>console := console s @ [err], error := Some (error_text err)\<rparr>)"

text \<open>The continuation of a suspended call: try, catch, finally.\<close>

definition handleGenerate_resume ::
  "js_error + GenerateContentResponse \<Rightarrow> js_error option \<Rightarrow> app \<Rightarrow> app outcome" where
  "handleGenerate_resume r ctor s =
     try_finally
       (try_catch (handleGenerate_try r ctor (s\<lparr>suspended := suspended s - 1\<rparr>))
          handleGenerate_catch)
       (\<lambda>s'. s'\<lparr>isGenerating := False\<rparr>)"

text \<open>
  One whole call with nothing else happening in between: the speech service answers the
  request with \<open>remote\<close>, the context constructor behaves as \<open>ctor\<close>.
\<close>

definition handleGenerate ::
  "(GenerateContentParameters \<Rightarrow> js_error + GenerateContentResponse) \<Rightarrow> js_error option
     \<Rightarrow> app \<Rightarrow> app outcome" where
  "handleGenerate remote ctor s =
     (case handleGenerate_begin s of
        Returned r \<Rightarrow> r
      | Awaiting p s1 \<Rightarrow> handleGenerate_resume (remote p) ctor s1)"

section \<open>Events\<close>

text \<open>
  The platform dispatches \<open>ended\<close> to a node that is started or was stopped and has not
  yet received the event, and runs the handler attached to the node.
\<close>

definition dispatch_ended :: "nat \<Rightarrow> app \<Rightarrow> app option" where
  "dispatch_ended n s =
     (if n < length (nodes s) \<and> (status (nodes s ! n) = Started \<or> status (nodes s ! n) = Stopped)
      then (let s1 = s\<lparr>nodes := (nodes s)[n := (nodes s ! n)\<lparr>status := Ended\<rparr>]\<rparr>
            in case onended (nodes s ! n) of
                 None \<Rightarrow> Some s1
               | Some SetIsPlayingFalse \<Rightarrow>
                   Some (s1\<lparr>isPlaying := False, ended_calls := ended_calls s1 @ [n]\<rparr>))
      else None)"

text \<open>
  What can happen to the rendered component: typing, choosing a voice, a click on the
  generate button (disabled while generating or while the text is blank), a click on the
  stop button (rendered only while playing), the settling of a pending request, and the
  \<open>ended\<close> event of a node. \<open>None\<close> means that the event cannot happen in that state.
  An exception that escapes a handler leaves the state as it was when thrown.
\<close>

datatype event =
    SetText js_string
  | SelectVoice VoiceName
  | ClickGenerate
  | ClickStop
  | Settle "js_error + GenerateContentResponse" "js_error option"
  | EndedEvent nat

definition after :: "app outcome \<Rightarrow> app" where
  "after r = (case r of Inl (e, s) \<Rightarrow> s | Inr s \<Rightarrow> s)"

fun fire :: "event \<Rightarrow> app \<Rightarrow> app option" where
  "fire (SetText t) s = Some (s\<lparr>text_state := t\<rparr>)"
| "fire (SelectVoice v) s = Some (s\<lparr>selectedVoice := v\<rparr>)"
| "fire ClickGenerate s =
     (if isGenerating s \<or> trim (text_state s) = [] then None
      else (case handleGenerate_begin s of
              Returned r \<Rightarrow> Some (after r)
            | Awaiting p s1 \<Rightarrow> Some s1))"
| "fire ClickStop s = (if isPlaying s then Some (after (stopPlayback s)) else None)"
| "fire (Settle r ctor) s =
     (if suspended s = 0 then None else Some (after (handleGenerate_resume r ctor s)))"
| "fire (EndedEvent n) s = dispatch_ended n s"

fun run :: "event list \<Rightarrow> app \<Rightarrow> app option" where
  "run [] s = Some s"
| "run (e # es) s = (case fire e s of None \<Rightarrow> None | Some s' \<Rightarrow> run es s')"

inductive reachable :: "app \<Rightarrow> bool" where
  reachable_initial: "reachable initial"
| reachable_fire: "reachable s \<Longrightarrow> fire e s = Some s' \<Longrightarrow> reachable s'"

text \<open>The nodes that are audible: started, and neither stopped nor played to the end.\<close>

definition live_nodes :: "app \<Rightarrow> nat list" where
  "live_nodes s = filter (\<lambda>n. status (nodes s ! n) = Started) [0..<length (nodes s)]"

text \<open>
  What holds of every state the component can be in: the ref points into the store; a
  live node is the one the ref points to; the state is Playing only with a node in the
  ref; at most one call is suspended, exactly while \<open>isGenerating\<close> is set, and no
  node is live meanwhile; a handler has run at most once per node, and only for nodes
  that received their \<open>ended\<close> event.
\<close>

definition consistent :: "app \<Rightarrow> bool" where
  "consistent s =
     ((\<forall>n. sourceRef s = Some n \<longrightarrow> n < length (nodes s))
      \<and> (\<forall>n < length (nodes s). status (nodes s ! n) = Started \<longrightarrow> sourceRef s = Some n)
      \<and> (isPlaying s \<longrightarrow> sourceRef s \<noteq> None)
      \<and> (isGenerating s \<longleftrightarrow> suspended s = 1)
      \<and> suspended s \<le> 1
      \<and> (isGenerating s \<longrightarrow> (\<forall>n < length (nodes s). status (nodes s ! n) \<noteq> Started))
      \<and> distinct (ended_calls s)
      \<and> (\<forall>n \<in> set (ended_calls s). n < length (nodes s) \<and> status (nodes s ! n) = Ended))"

text \<open>A response that carries the base64 payload \<open>b64\<close> as its first inline data.\<close>

definition audio_response :: "js_string \<Rightarrow> GenerateContentResponse" where
  "audio_response b64 =
     \<lparr>candidates = Some [\<lparr>content = Some \<lparr>parts = Some [\<lparr>inlineData = Some \<lparr>data = Some b64\<rparr>\<rparr>]\<rparr>\<rparr>]\<rparr>"

text \<open>
  The state after typing "hi", clicking generate and receiving the payload \<open>AID/fw==\<close>
  (the bytes 00 80 FF 7F): one node, live and referred to by the slot.
\<close>

definition example_playing :: app where
  "example_playing =
     initial\<lparr> text_state := js ''hi'', isPlaying := True,
              audioContextRef := Some \<lparr>ctx_sampleRate = 24000\<rparr>, sourceRef := Some 0,
              nodes := [\<lparr> buffer = Some (toAudioBuffer [0x00, 0x80, 0xFF, 0x7F]),
                          connected = True, status = Started,
                          onended = Some SetIsPlayingFalse \<rparr>],
              requests := [mk_parameters \<lparr>req_text = js ''hi'', voiceName = Kore\<rparr>] \<rparr>"

section \<open>Properties of the decoder\<close>

lemma b64_alphabet_upt:
  "b64_alphabet = map of_nat ([65..<91] @ [97..<123] @ [48..<58] @ [43, 47])"
  by code_simp

lemma in_b64_alphabet_iff:
  "c \<in> set b64_alphabet \<longleftrightarrow>
     (65 \<le> unat c \<and> unat c \<le> 90) \<or> (97 \<le> unat c \<and> unat c \<le> 122)
     \<or> (48 \<le> unat c \<and> unat c \<le> 57) \<or> unat c = 43 \<or> unat c = 47"
proof -
  have e: "(c = of_nat n) = (unat c = n)" if "n < 65536" for n
    using that by (auto simp add: word_unat_eq_iff unat_of_nat)
  have "c \<in> set b64_alphabet \<longleftrightarrow> (\<exists>n \<in> set ([65..<91] @ [97..<123] @ [48..<58] @ [43, 47]). c = of_nat n)"
    unfolding b64_alphabet_upt by (simp only: set_map image_iff)
  also have "\<dots> \<longleftrightarrow> (\<exists>n \<in> set ([65..<91] @ [97..<123] @ [48..<58] @ [43, 47]). unat c = n)"
    by (intro bex_cong refl e) (auto simp del: upt_rec_numeral)
  also have "\<dots> \<longleftrightarrow> (65 \<le> unat c \<and> unat c \<le> 90) \<or> (97 \<le> unat c \<and> unat c \<le> 122)
     \<or> (48 \<le> unat c \<and> unat c \<le> 57) \<or> unat c = 43 \<or> unat c = 47"
    by (simp del: upt_rec_numeral) linarith
  finally show ?thesis .
qed

lemma b64_value_None_iff: "b64_value c = None \<longleftrightarrow> c \<notin> set b64_alphabet"
  unfolding in_b64_alphabet_iff
  by (simp add: b64_value_def word_le_nat_alt word_unat_eq_iff)

lemma b64_value_pad: "b64_value b64_pad = None"
  by (simp add: b64_value_def b64_pad_def)

lemma valid_padding_Cons4:
  assumes "rest \<noteq> []"
  shows "valid_padding (a # b # c # d # rest) =
     (a \<noteq> b64_pad \<and> b \<noteq> b64_pad \<and> c \<noteq> b64_pad \<and> d \<noteq> b64_pad \<and> valid_padding rest)"
proof (cases "length rest mod 4 = 0")
  case False
  then show ?thesis by (simp add: valid_padding_def)
next
  case True
  from assms have "length rest \<noteq> 0" by simp
  with True have "\<exists>k. length rest = Suc (Suc k)" by presburger
  then obtain k where k: "length rest = Suc (Suc k)" ..
  have l: "length (a # b # c # d # rest) mod 4 = 0"
    using True by simp
  have t: "take (length (a # b # c # d # rest) - 2) (a # b # c # d # rest)
      = a # b # c # d # take (length rest - 2) rest"
    using k by simp
  have d: "drop (length (a # b # c # d # rest) - 2) (a # b # c # d # rest)
      = drop (length rest - 2) rest"
    using k by simp
  show ?thesis
    unfolding valid_padding_def l t d using True by auto
qed

lemma decode_quanta_Some_iff:
  "decode_quanta s \<noteq> None \<longleftrightarrow>
     valid_padding s \<and> (\<forall>c \<in> set s. b64_value c \<noteq> None \<or> c = b64_pad)"
proof (induction s rule: decode_quanta.induct)
  case 1
  then show ?case by (simp add: valid_padding_def)
next
  case (2 a b c d)
  then show ?case
    by (auto simp add: valid_padding_def b64_value_pad split: option.splits)
next
  case (3 a b c d v va)
  have vp: "valid_padding (a # b # c # d # v # va) =
     (a \<noteq> b64_pad \<and> b \<noteq> b64_pad \<and> c \<noteq> b64_pad \<and> d \<noteq> b64_pad \<and> valid_padding (v # va))"
    by (rule valid_padding_Cons4) simp
  show ?case
  proof (cases "b64_value a = None \<or> b64_value b = None \<or> b64_value c = None \<or> b64_value d = None")
    case True
    then have "decode_quanta (a # b # c # d # v # va) = None"
      by (auto split: option.splits)
    moreover have "\<not> (valid_padding (a # b # c # d # v # va)
        \<and> (\<forall>x \<in> set (a # b # c # d # v # va). b64_value x \<noteq> None \<or> x = b64_pad))"
      using True vp by auto
    ultimately show ?thesis by simp
  next
    case False
    then obtain va' vb' vc' vd' where vs: "b64_value a = Some va'" "b64_value b = Some vb'"
      "b64_value c = Some vc'" "b64_value d = Some vd'" by auto
    then have np: "a \<noteq> b64_pad" "b \<noteq> b64_pad" "c \<noteq> b64_pad" "d \<noteq> b64_pad"
      using b64_value_pad by auto
    have ih: "decode_quanta (v # va) \<noteq> None \<longleftrightarrow>
      valid_padding (v # va) \<and> (\<forall>x \<in> set (v # va). b64_value x \<noteq> None \<or> x = b64_pad)"
      using "3.IH"[OF vs] .
    have "decode_quanta (a # b # c # d # v # va) \<noteq> None \<longleftrightarrow> decode_quanta (v # va) \<noteq> None"
      using vs by (simp split: option.splits)
    then show ?thesis using ih vp np vs by auto
  qed
qed (simp_all add: valid_padding_def)

lemma length_pcm_samples: "length (pcm_samples bs) = length bs div 2"
  by (induction bs rule: pcm_samples.induct) simp_all

lemma nth_pcm_samples:
  "i < length bs div 2 \<Longrightarrow>
     pcm_samples bs ! i = real_of_int (int16_le (bs ! (2 * i)) (bs ! (2 * i + 1))) / 32768"
proof (induction bs arbitrary: i rule: pcm_samples.induct)
  case (1 lo hi rest)
  then show ?case by (cases i) simp_all
qed simp_all

lemma uint_word_cat_bytes:
  "uint (word_cat hi lo :: 16 word) = uint lo + 256 * uint (hi :: byte)" for lo :: byte
proof -
  have lo: "0 \<le> uint lo" "uint lo < 256" using uint_bounded[of lo] by simp_all
  have hi: "0 \<le> uint hi" "uint hi < 256" using uint_bounded[of hi] by simp_all
  have c: "concat_bit 8 (uint lo) (uint hi) = uint lo + 256 * uint hi"
    using lo by (simp add: concat_bit_eq take_bit_int_eq_self push_bit_eq_mult)
  have t: "take_bit 16 (uint lo + 256 * uint hi) = uint lo + 256 * uint hi"
    using lo hi by (intro take_bit_int_eq_self) auto
  have "uint (word_cat hi lo :: 16 word) = take_bit 16 (concat_bit 8 (uint lo) (uint hi))"
    unfolding word_cat_eq' uint_word_of_int_eq by simp
  then show ?thesis by (simp only: c t)
qed

lemma bit15_int: "0 \<le> k \<Longrightarrow> k < 65536 \<Longrightarrow> even (k div 32768) = (k < 32768)" for k :: int
proof (cases "k < 32768")
  case True
  assume "0 \<le> k"
  with True have "k div 32768 = 0" by (simp add: div_pos_pos_trivial)
  with True show ?thesis by simp
next
  case False
  assume "k < 65536"
  with False have "(k - 32768) div 32768 = 0" by (simp add: div_pos_pos_trivial)
  moreover have "k div 32768 = (k - 32768) div 32768 + 1"
    using False by (intro div_pos_geq) simp_all
  ultimately show ?thesis using False by simp
qed

lemma sint16: "sint (w :: 16 word) = (if uint w < 32768 then uint w else uint w - 65536)"
proof -
  have b: "0 \<le> uint w" "uint w < 65536" using uint_bounded[of w] by simp_all
  have t: "take_bit 16 (uint w) = uint w"
    using b by (intro take_bit_int_eq_self) auto
  have d: "bit (uint w) 15 \<longleftrightarrow> \<not> uint w < 32768"
    using bit15_int[OF b] by (simp add: bit_iff_odd)
  have "sint w = signed_take_bit 15 (uint w)" by (simp add: sint_uint)
  also have "\<dots> = take_bit 16 (uint w) - 65536 * of_bool (bit (uint w) 15)"
    by (simp add: signed_take_bit_eq_take_bit_minus)
  finally show ?thesis by (simp add: t d)
qed

lemma int16_le_arith:
  "int16_le lo hi =
     (if uint lo + 256 * uint hi < 32768 then uint lo + 256 * uint hi
      else uint lo + 256 * uint hi - 65536)"
  by (simp only: int16_le_def sint16 uint_word_cat_bytes)

lemma int16_le_range: "- 32768 \<le> int16_le lo hi \<and> int16_le lo hi \<le> 32767"
  unfolding int16_le_def using sint_range_size[of "word_cat hi lo :: 16 word"]
  by (simp add: word_size)

lemma pcm_samples_range: "x \<in> set (pcm_samples bs) \<Longrightarrow> - 1 \<le> x \<and> x \<le> 1"
proof (induction bs rule: pcm_samples.induct)
  case (1 lo hi rest)
  have "- 32768 \<le> real_of_int (int16_le lo hi)" "real_of_int (int16_le lo hi) \<le> 32767"
    using int16_le_range[of lo hi] by linarith+
  then have "- 1 \<le> real_of_int (int16_le lo hi) / 32768 \<and> real_of_int (int16_le lo hi) / 32768 \<le> 1"
    by simp
  with 1 show ?case by auto
qed simp_all

lemma valid_base64_iff: "valid_base64 payload \<longleftrightarrow> decode_quanta payload \<noteq> None"
proof -
  have "c \<in> set b64_alphabet \<longleftrightarrow> b64_value c \<noteq> None" for c
    by (simp add: b64_value_None_iff)
  then show ?thesis
    by (simp only: valid_base64_def decode_quanta_Some_iff) blast
qed

section \<open>Claims about the decoder\<close>

text \<open>
  Claim C6. For every valid base64 string the pipeline succeeds and yields exactly
  floor(n / 2) samples for n decoded bytes (n / 2 when n is even, the last byte dropped
  when n is odd); sample i is the signed 16-bit little-endian reading of bytes 2i and
  2i + 1 divided by 32768, and every sample lies in [-1, 1]. The witness evaluates the
  bytes 00 80 FF 7F to -1 and 32767/32768, which is within 0.00001 of 0.99997.
\<close>

theorem decode_pipeline_samples:
  assumes "valid_base64 payload"
  shows "\<exists>bytes buf. decodeBase64 payload = Inr bytes \<and> decode_pipeline payload = Inr buf
     \<and> sampleRate buf = 24000 \<and> numberOfChannels buf = 1
     \<and> length (channelData buf) = length bytes div 2
     \<and> (\<forall>i < length bytes div 2.
           channelData buf ! i =
             real_of_int (if uint (bytes ! (2 * i)) + 256 * uint (bytes ! (2 * i + 1)) < 32768
                          then uint (bytes ! (2 * i)) + 256 * uint (bytes ! (2 * i + 1))
                          else uint (bytes ! (2 * i)) + 256 * uint (bytes ! (2 * i + 1)) - 65536)
             / 32768)
     \<and> (\<forall>x \<in> set (channelData buf). - 1 \<le> x \<and> x \<le> 1)"
proof -
  from assms obtain bytes where b: "decode_quanta payload = Some bytes"
    by (auto simp add: valid_base64_iff)
  have d: "decodeBase64 payload = Inr bytes" by (simp add: decodeBase64_def b)
  have p: "decode_pipeline payload = Inr (toAudioBuffer bytes)" by (simp add: decode_pipeline_def d)
  have n: "\<forall>i < length bytes div 2.
           channelData (toAudioBuffer bytes) ! i =
             real_of_int (if uint (bytes ! (2 * i)) + 256 * uint (bytes ! (2 * i + 1)) < 32768
                          then uint (bytes ! (2 * i)) + 256 * uint (bytes ! (2 * i + 1))
                          else uint (bytes ! (2 * i)) + 256 * uint (bytes ! (2 * i + 1)) - 65536)
             / 32768"
  proof (intro allI impI)
    fix i assume "i < length bytes div 2"
    then have "pcm_samples bytes ! i
        = real_of_int (int16_le (bytes ! (2 * i)) (bytes ! (2 * i + 1))) / 32768"
      by (rule nth_pcm_samples)
    then show "channelData (toAudioBuffer bytes) ! i =
             real_of_int (if uint (bytes ! (2 * i)) + 256 * uint (bytes ! (2 * i + 1)) < 32768
                          then uint (bytes ! (2 * i)) + 256 * uint (bytes ! (2 * i + 1))
                          else uint (bytes ! (2 * i)) + 256 * uint (bytes ! (2 * i + 1)) - 65536)
             / 32768"
      by (simp only: toAudioBuffer_def AudioBuffer.select_convs int16_le_arith)
  qed
  have r: "\<forall>x \<in> set (channelData (toAudioBuffer bytes)). - 1 \<le> x \<and> x \<le> 1"
    using pcm_samples_range by (simp add: toAudioBuffer_def)
  have l: "length (channelData (toAudioBuffer bytes)) = length bytes div 2"
    by (simp add: toAudioBuffer_def length_pcm_samples)
  have c: "sampleRate (toAudioBuffer bytes) = 24000" "numberOfChannels (toAudioBuffer bytes) = 1"
    by (simp_all add: toAudioBuffer_def)
  show ?thesis using d p n r l c by blast
qed

theorem decode_pipeline_samples_witness:
  "valid_base64 (js ''AID/fw=='')
   \<and> decodeBase64 (js ''AID/fw=='') = Inr [0x00, 0x80, 0xFF, 0x7F]
   \<and> decode_pipeline (js ''AID/fw=='') =
       Inr \<lparr>sampleRate = 24000, numberOfChannels = 1, channelData = [- 1, 32767 / 32768]\<rparr>
   \<and> \<bar>32767 / 32768 - 0.99997\<bar> < (0.00001 :: real)
   \<and> decodeBase64 (js ''AID/'') = Inr [0x00, 0x80, 0xFF]
   \<and> decode_pipeline (js ''AID/'') =
       Inr \<lparr>sampleRate = 24000, numberOfChannels = 1, channelData = [- 1]\<rparr>"
proof -
  have v: "valid_base64 (js ''AID/fw=='')"
    by (simp add: valid_base64_iff js_def b64_value_def b64_pad_def)
  show ?thesis
    using v decode_pipeline_samples[OF v]
    by (simp add: decode_pipeline_def decodeBase64_def toAudioBuffer_def js_def b64_value_def
        b64_pad_def quantum_bytes_def int16_le_def word_cat_eq)
qed

text \<open>
  Claim C7. An input with a character that is neither in the base64 alphabet nor the
  padding character, or with invalid padding, makes decodeBase64 fail with DecodeError,
  and the pipeline produces no buffer.
\<close>

theorem decodeBase64_invalid_raises:
  "(\<exists>c \<in> set payload. c \<notin> set b64_alphabet \<and> c \<noteq> b64_pad) \<or> \<not> valid_padding payload
     \<Longrightarrow> decodeBase64 payload = Inl DecodeError \<and> decode_pipeline payload = Inl DecodeError"
proof -
  assume "(\<exists>c \<in> set payload. c \<notin> set b64_alphabet \<and> c \<noteq> b64_pad) \<or> \<not> valid_padding payload"
  then have "\<not> valid_base64 payload" by (auto simp add: valid_base64_def)
  then have "decode_quanta payload = None" by (simp add: valid_base64_iff)
  then show ?thesis by (simp add: decodeBase64_def decode_pipeline_def)
qed

theorem decodeBase64_invalid_raises_witness:
  "decodeBase64 (js ''AB!!!CDE'') = Inl DecodeError
   \<and> decode_pipeline (js ''AB!!!CDE'') = Inl DecodeError
   \<and> decodeBase64 (js ''!!!'') = Inl DecodeError
   \<and> decodeBase64 (js ''AA=A'') = Inl DecodeError"
proof -
  have a: "(\<exists>c \<in> set (js ''AB!!!CDE''). c \<notin> set b64_alphabet \<and> c \<noteq> b64_pad)
      \<or> \<not> valid_padding (js ''AB!!!CDE'')"
    by (simp add: js_def b64_pad_def b64_value_None_iff[symmetric] b64_value_def)
  have b: "(\<exists>c \<in> set (js ''!!!''). c \<notin> set b64_alphabet \<and> c \<noteq> b64_pad)
      \<or> \<not> valid_padding (js ''!!!'')"
    by (simp add: js_def valid_padding_def)
  have c: "(\<exists>c \<in> set (js ''AA=A''). c \<notin> set b64_alphabet \<and> c \<noteq> b64_pad)
      \<or> \<not> valid_padding (js ''AA=A'')"
    by (simp add: js_def valid_padding_def b64_pad_def)
  show ?thesis
    using decodeBase64_invalid_raises[OF a] decodeBase64_invalid_raises[OF b]
      decodeBase64_invalid_raises[OF c]
    by simp
qed

section \<open>Properties of the component\<close>

lemma dropWhile_all_iff: "(\<forall>x \<in> set (dropWhile P xs). P x) \<longleftrightarrow> (\<forall>x \<in> set xs. P x)"
proof -
  have "set xs = set (takeWhile P xs) \<union> set (dropWhile P xs)"
    by (metis set_append takeWhile_dropWhile_id)
  then show ?thesis by (auto dest: set_takeWhileD)
qed

lemma trim_empty_iff: "trim s = [] \<longleftrightarrow> (\<forall>c \<in> set s. is_white_space c)"
  by (simp add: trim_def dropWhile_eq_Nil_conv dropWhile_all_iff)

lemma stopPlayback_eq:
  "stopPlayback s =
     Inr (s\<lparr>nodes := (case sourceRef s of
                         None \<Rightarrow> nodes s
                       | Some n \<Rightarrow>
                           if n < length (nodes s) \<and> status (nodes s ! n) = Started
                           then (nodes s)[n := (nodes s ! n)\<lparr>status := Stopped\<rparr>]
                           else nodes s),
            sourceRef := None, isPlaying := False\<rparr>)"
  by (cases "sourceRef s")
     (auto simp add: stopPlayback_def then_do_def try_catch_def call_node_def node_stop_def
        split: node_status.splits)

lemma play_buffer_eq:
  "play_buffer b s =
     Inr (s\<lparr>nodes := nodes s @ [\<lparr>buffer = Some b, connected = True, status = Started,
                                   onended = Some SetIsPlayingFalse\<rparr>],
            sourceRef := Some (length (nodes s)), isPlaying := True\<rparr>)"
  by (simp add: play_buffer_def Let_def call_node_def node_start_def then_do_def)

lemma resume_rejected:
  "generateCaribbeanSpeech_resume r = Inl e \<Longrightarrow>
   handleGenerate_resume r ctor s =
     Inr (s\<lparr>suspended := suspended s - 1, console := console s @ [e],
            error := Some (error_text e), isGenerating := False\<rparr>)"
  by (simp add: handleGenerate_resume_def handleGenerate_try_def try_catch_def try_finally_def
      handleGenerate_catch_def)

lemma resume_no_audio:
  "generateCaribbeanSpeech_resume r = Inr None \<or> generateCaribbeanSpeech_resume r = Inr (Some []) \<Longrightarrow>
   handleGenerate_resume r ctor s =
     Inr (s\<lparr>suspended := suspended s - 1,
            console := console s @ [JsError (js ''Error'') (Some (js ''Failed to generate audio data.''))],
            error := Some (error_text (JsError (js ''Error'') (Some (js ''Failed to generate audio data.'')))),
            isGenerating := False\<rparr>)"
  by (auto simp add: handleGenerate_resume_def handleGenerate_try_def try_catch_def try_finally_def
      handleGenerate_catch_def)

lemma resume_no_context:
  "generateCaribbeanSpeech_resume r = Inr (Some b) \<Longrightarrow> b \<noteq> [] \<Longrightarrow>
   audioContextRef s = None \<Longrightarrow>
   handleGenerate_resume r (Some e) s =
     Inr (s\<lparr>suspended := suspended s - 1, console := console s @ [e],
            error := Some (error_text e), isGenerating := False\<rparr>)"
  by (simp add: handleGenerate_resume_def handleGenerate_try_def try_catch_def try_finally_def
      handleGenerate_catch_def ensure_context_def then_do_def)

lemma resume_decode_error:
  "generateCaribbeanSpeech_resume r = Inr (Some b) \<Longrightarrow> b \<noteq> [] \<Longrightarrow>
   audioContextRef s \<noteq> None \<or> ctor = None \<Longrightarrow> decodeBase64 b = Inl e \<Longrightarrow>
   handleGenerate_resume r ctor s =
     Inr (s\<lparr>suspended := suspended s - 1,
            audioContextRef := Some (case audioContextRef s of
                                       None \<Rightarrow> \<lparr>ctx_sampleRate = 24000\<rparr> | Some c \<Rightarrow> c),
            console := console s @ [e],
            error := Some (error_text e), isGenerating := False\<rparr>)"
  by (auto simp add: handleGenerate_resume_def handleGenerate_try_def try_catch_def try_finally_def
      handleGenerate_catch_def ensure_context_def then_do_def split: option.splits)

lemma resume_plays:
  "generateCaribbeanSpeech_resume r = Inr (Some b) \<Longrightarrow> b \<noteq> [] \<Longrightarrow>
   audioContextRef s \<noteq> None \<or> ctor = None \<Longrightarrow> decodeBase64 b = Inr bytes \<Longrightarrow>
   handleGenerate_resume r ctor s =
     Inr (s\<lparr>suspended := suspended s - 1,
            audioContextRef := Some (case audioContextRef s of
                                       None \<Rightarrow> \<lparr>ctx_sampleRate = 24000\<rparr> | Some c \<Rightarrow> c),
            nodes := nodes s @ [\<lparr>buffer = Some (toAudioBuffer bytes), connected = True,
                                  status = Started, onended = Some SetIsPlayingFalse\<rparr>],
            sourceRef := Some (length (nodes s)), isPlaying := True,
            isGenerating := False\<rparr>)"
  by (auto simp add: handleGenerate_resume_def handleGenerate_try_def try_catch_def try_finally_def
      handleGenerate_catch_def ensure_context_def then_do_def play_buffer_eq split: option.splits)

lemma handleGenerate_resume_cases:
  "(\<exists>e ac. handleGenerate_resume r ctor s =
       Inr (s\<lparr>suspended := suspended s - 1, audioContextRef := ac,
              console := console s @ [e], error := Some (error_text e),
              isGenerating := False\<rparr>))
   \<or> (\<exists>ac b. handleGenerate_resume r ctor s =
       Inr (s\<lparr>suspended := suspended s - 1, audioContextRef := ac,
              nodes := nodes s @ [\<lparr>buffer = Some b, connected = True, status = Started,
                                    onended = Some SetIsPlayingFalse\<rparr>],
              sourceRef := Some (length (nodes s)), isPlaying := True,
              isGenerating := False\<rparr>))"
proof (cases "generateCaribbeanSpeech_resume r")
  case (Inl e)
  show ?thesis unfolding resume_rejected[OF Inl]
    by (rule disjI1, rule exI[of _ e], rule exI[of _ "audioContextRef s"]) simp
next
  case (Inr v)
  have none: ?thesis if "v = None \<or> v = Some []"
  proof -
    from that Inr have n: "generateCaribbeanSpeech_resume r = Inr None
        \<or> generateCaribbeanSpeech_resume r = Inr (Some [])" by simp
    show ?thesis unfolding resume_no_audio[OF n]
      by (rule disjI1, rule exI[of _ "JsError (js ''Error'') (Some (js ''Failed to generate audio data.''))"],
          rule exI[of _ "audioContextRef s"]) simp
  qed
  show ?thesis
  proof (cases v)
    case None
    then show ?thesis using none by simp
  next
    case (Some b)
    note r = Inr[unfolded Some]
    show ?thesis
    proof (cases "b = []")
      case True
      then show ?thesis using none Some by simp
    next
      case nonempty: False
      show ?thesis
      proof (cases "audioContextRef s \<noteq> None \<or> ctor = None")
        case True
        show ?thesis
        proof (cases "decodeBase64 b")
          case (Inl e)
          show ?thesis unfolding resume_decode_error[OF r nonempty True Inl]
            by (rule disjI1, rule exI[of _ e], rule exI) (rule refl)
        next
          case (Inr bytes)
          show ?thesis unfolding resume_plays[OF r nonempty True Inr]
            by (rule disjI2, rule exI, rule exI) (rule refl)
        qed
      next
        case False
        then obtain e where c: "ctor = Some e" and a: "audioContextRef s = None" by auto
        show ?thesis unfolding c resume_no_context[OF r nonempty a]
          by (rule disjI1, rule exI[of _ e], rule exI[of _ "audioContextRef s"]) simp
      qed
    qed
  qed
qed

lemma consistent_initial: "consistent initial"
  by (simp add: consistent_def initial_def)

lemma after_stopPlayback:
  "after (stopPlayback s) =
     s\<lparr>nodes := (case sourceRef s of
                         None \<Rightarrow> nodes s
                       | Some n \<Rightarrow>
                           if n < length (nodes s) \<and> status (nodes s ! n) = Started
                           then (nodes s)[n := (nodes s ! n)\<lparr>status := Stopped\<rparr>]
                           else nodes s),
            sourceRef := None, isPlaying := False\<rparr>"
  by (simp add: stopPlayback_eq after_def)

lemma stopped_nodes_length:
  "length (nodes (after (stopPlayback s))) = length (nodes s)"
  by (simp add: after_stopPlayback split: option.splits)

lemma stopped_nodes_status:
  "n < length (nodes s) \<Longrightarrow>
   status (nodes (after (stopPlayback s)) ! n) =
     (if sourceRef s = Some n \<and> status (nodes s ! n) = Started then Stopped
      else status (nodes s ! n))"
  by (simp add: after_stopPlayback nth_list_update split: option.splits)

lemma stopped_fields:
  "sourceRef (after (stopPlayback s)) = None"
  "isPlaying (after (stopPlayback s)) = False"
  "isGenerating (after (stopPlayback s)) = isGenerating s"
  "suspended (after (stopPlayback s)) = suspended s"
  "ended_calls (after (stopPlayback s)) = ended_calls s"
  by (simp_all add: after_stopPlayback)

lemma consistentI:
  assumes "\<And>n. sourceRef s = Some n \<Longrightarrow> n < length (nodes s)"
    and "\<And>n. n < length (nodes s) \<Longrightarrow> status (nodes s ! n) = Started \<Longrightarrow> sourceRef s = Some n"
    and "isPlaying s \<Longrightarrow> sourceRef s \<noteq> None"
    and "isGenerating s \<longleftrightarrow> suspended s = 1"
    and "suspended s \<le> 1"
    and "\<And>n. isGenerating s \<Longrightarrow> n < length (nodes s) \<Longrightarrow> status (nodes s ! n) \<noteq> Started"
    and "distinct (ended_calls s)"
    and "\<And>n. n \<in> set (ended_calls s) \<Longrightarrow> n < length (nodes s) \<and> status (nodes s ! n) = Ended"
  shows "consistent s"
  unfolding consistent_def using assms by blast

lemma consistentD:
  assumes "consistent s"
  shows "sourceRef s = Some n \<Longrightarrow> n < length (nodes s)"
    and "n < length (nodes s) \<Longrightarrow> status (nodes s ! n) = Started \<Longrightarrow> sourceRef s = Some n"
    and "isPlaying s \<Longrightarrow> sourceRef s \<noteq> None"
    and "isGenerating s \<longleftrightarrow> suspended s = 1"
    and "suspended s \<le> 1"
    and "isGenerating s \<Longrightarrow> n < length (nodes s) \<Longrightarrow> status (nodes s ! n) \<noteq> Started"
    and "distinct (ended_calls s)"
    and "n \<in> set (ended_calls s) \<Longrightarrow> n < length (nodes s) \<and> status (nodes s ! n) = Ended"
  using assms unfolding consistent_def by blast+

lemma consistent_stop:
  assumes c: "consistent s"
  shows "consistent (after (stopPlayback s))"
proof (rule consistentI)
  fix n
  assume "n < length (nodes (after (stopPlayback s)))"
    and "status (nodes (after (stopPlayback s)) ! n) = Started"
  then show "sourceRef (after (stopPlayback s)) = Some n"
    using consistentD(2)[OF c, of n]
    by (simp add: stopped_nodes_length stopped_nodes_status split: if_splits)
next
  fix n
  assume "isGenerating (after (stopPlayback s))" and "n < length (nodes (after (stopPlayback s)))"
  then show "status (nodes (after (stopPlayback s)) ! n) \<noteq> Started"
    using consistentD(6)[OF c, of n]
    by (simp add: stopped_fields stopped_nodes_length stopped_nodes_status)
next
  fix n
  assume "n \<in> set (ended_calls (after (stopPlayback s)))"
  then show "n < length (nodes (after (stopPlayback s)))
      \<and> status (nodes (after (stopPlayback s)) ! n) = Ended"
    using consistentD(8)[OF c, of n]
    by (simp add: stopped_fields stopped_nodes_length stopped_nodes_status)
qed (use consistentD(4,5,7)[OF c] in \<open>simp_all add: stopped_fields\<close>)

lemma handleGenerate_begin_eq:
  "trim (text_state s) \<noteq> [] \<Longrightarrow>
   handleGenerate_begin s =
     Awaiting (mk_parameters \<lparr>req_text = text_state s, voiceName = selectedVoice s\<rparr>)
       ((after (stopPlayback s))
          \<lparr>error := None, isGenerating := True,
            requests := requests s @ [mk_parameters \<lparr>req_text = text_state s, voiceName = selectedVoice s\<rparr>],
            suspended := suspended s + 1\<rparr>)"
  by (cases "sourceRef s") (simp_all add: handleGenerate_begin_def stopPlayback_eq after_def Let_def)

lemma consistent_begin:
  assumes c: "consistent s" and g: "\<not> isGenerating s"
  shows "consistent ((after (stopPlayback s))
          \<lparr>error := e, isGenerating := True, requests := rq, suspended := suspended s + 1\<rparr>)"
proof -
  define s1 where "s1 = (after (stopPlayback s))
          \<lparr>error := e, isGenerating := True, requests := rq, suspended := suspended s + 1\<rparr>"
  have f: "length (nodes s1) = length (nodes s)" "sourceRef s1 = None" "isPlaying s1 = False"
    "isGenerating s1 = True" "suspended s1 = suspended s + 1" "ended_calls s1 = ended_calls s"
    by (simp_all add: s1_def stopped_fields stopped_nodes_length)
  have st: "status (nodes s1 ! n) =
      (if sourceRef s = Some n \<and> status (nodes s ! n) = Started then Stopped
       else status (nodes s ! n))" if "n < length (nodes s)" for n
    using that by (simp add: s1_def stopped_nodes_status)
  have z: "suspended s = 0" using g consistentD(4,5)[OF c] by auto
  have live: "status (nodes s1 ! n) \<noteq> Started" if "n < length (nodes s)" for n
    using consistentD(2)[OF c, of n] that by (auto simp add: st)
  have "consistent s1"
  proof (rule consistentI)
    fix n assume "sourceRef s1 = Some n"
    then show "n < length (nodes s1)" by (simp add: f)
  next
    fix n assume "n < length (nodes s1)" "status (nodes s1 ! n) = Started"
    then show "sourceRef s1 = Some n" using live[of n] by (simp add: f)
  next
    assume "isPlaying s1" then show "sourceRef s1 \<noteq> None" by (simp add: f)
  next
    show "isGenerating s1 \<longleftrightarrow> suspended s1 = 1" by (simp add: f z)
  next
    show "suspended s1 \<le> 1" by (simp add: f z)
  next
    fix n assume "isGenerating s1" "n < length (nodes s1)"
    then show "status (nodes s1 ! n) \<noteq> Started" using live[of n] by (simp add: f)
  next
    show "distinct (ended_calls s1)" using consistentD(7)[OF c] by (simp add: f)
  next
    fix n assume "n \<in> set (ended_calls s1)"
    then have "n < length (nodes s) \<and> status (nodes s ! n) = Ended"
      using consistentD(8)[OF c, of n] by (simp add: f)
    then show "n < length (nodes s1) \<and> status (nodes s1 ! n) = Ended"
      by (simp add: f st)
  qed
  then show ?thesis by (simp add: s1_def)
qed

lemma consistent_failed:
  assumes c: "consistent s" and p: "suspended s \<noteq> 0"
  shows "consistent (s\<lparr>suspended := suspended s - 1, audioContextRef := ac, console := co,
      error := er, isGenerating := False\<rparr>)"
proof -
  define s1 where "s1 = s\<lparr>suspended := suspended s - 1, audioContextRef := ac, console := co,
      error := er, isGenerating := False\<rparr>"
  have f: "nodes s1 = nodes s" "sourceRef s1 = sourceRef s" "isPlaying s1 = isPlaying s"
    "isGenerating s1 = False" "suspended s1 = suspended s - 1" "ended_calls s1 = ended_calls s"
    by (simp_all add: s1_def)
  from p consistentD(4,5)[OF c] have g: "isGenerating s" "suspended s = 1" by auto
  have "consistent s1"
  proof (rule consistentI)
    fix n assume "sourceRef s1 = Some n"
    then show "n < length (nodes s1)" using consistentD(1)[OF c, of n] by (simp add: f)
  next
    fix n assume "n < length (nodes s1)" "status (nodes s1 ! n) = Started"
    then show "sourceRef s1 = Some n" using consistentD(2)[OF c, of n] by (simp add: f)
  next
    assume "isPlaying s1" then show "sourceRef s1 \<noteq> None"
      using consistentD(3)[OF c] by (simp add: f)
  next
    show "isGenerating s1 \<longleftrightarrow> suspended s1 = 1" by (simp add: f g)
  next
    show "suspended s1 \<le> 1" by (simp add: f g)
  next
    fix n assume "isGenerating s1" then show "status (nodes s1 ! n) \<noteq> Started" by (simp add: f)
  next
    show "distinct (ended_calls s1)" using consistentD(7)[OF c] by (simp add: f)
  next
    fix n assume "n \<in> set (ended_calls s1)"
    then show "n < length (nodes s1) \<and> status (nodes s1 ! n) = Ended"
      using consistentD(8)[OF c, of n] by (simp add: f)
  qed
  then show ?thesis by (simp add: s1_def)
qed

lemma consistent_played:
  assumes c: "consistent s" and p: "suspended s \<noteq> 0"
  shows "consistent (s\<lparr>suspended := suspended s - 1, audioContextRef := ac,
      nodes := nodes s @ [\<lparr>buffer = Some b, connected = True, status = Started,
                            onended = Some SetIsPlayingFalse\<rparr>],
      sourceRef := Some (length (nodes s)), isPlaying := True, isGenerating := False\<rparr>)"
proof -
  define s1 where "s1 = s\<lparr>suspended := suspended s - 1, audioContextRef := ac,
      nodes := nodes s @ [\<lparr>buffer = Some b, connected = True, status = Started,
                            onended = Some SetIsPlayingFalse\<rparr>],
      sourceRef := Some (length (nodes s)), isPlaying := True, isGenerating := False\<rparr>"
  have f: "length (nodes s1) = Suc (length (nodes s))" "sourceRef s1 = Some (length (nodes s))"
    "isPlaying s1 = True" "isGenerating s1 = False" "suspended s1 = suspended s - 1"
    "ended_calls s1 = ended_calls s"
    by (simp_all add: s1_def)
  have old: "nodes s1 ! n = nodes s ! n" if "n < length (nodes s)" for n
    using that by (simp add: s1_def nth_append)
  from p consistentD(4,5)[OF c] have g: "isGenerating s" "suspended s = 1" by auto
  have "consistent s1"
  proof (rule consistentI)
    fix n assume "sourceRef s1 = Some n"
    then show "n < length (nodes s1)" by (auto simp add: f)
  next
    fix n assume a: "n < length (nodes s1)" "status (nodes s1 ! n) = Started"
    show "sourceRef s1 = Some n"
    proof (cases "n < length (nodes s)")
      case True
      then show ?thesis using a consistentD(6)[OF c g(1), of n] by (simp add: old)
    next
      case False
      then show ?thesis using a by (simp add: f)
    qed
  next
    assume "isPlaying s1" then show "sourceRef s1 \<noteq> None" by (simp add: f)
  next
    show "isGenerating s1 \<longleftrightarrow> suspended s1 = 1" by (simp add: f g)
  next
    show "suspended s1 \<le> 1" by (simp add: f g)
  next
    fix n assume "isGenerating s1" then show "status (nodes s1 ! n) \<noteq> Started" by (simp add: f)
  next
    show "distinct (ended_calls s1)" using consistentD(7)[OF c] by (simp add: f)
  next
    fix n assume "n \<in> set (ended_calls s1)"
    then have "n < length (nodes s) \<and> status (nodes s ! n) = Ended"
      using consistentD(8)[OF c, of n] by (simp add: f)
    then show "n < length (nodes s1) \<and> status (nodes s1 ! n) = Ended"
      by (simp add: f old)
  qed
  then show ?thesis by (simp add: s1_def)
qed

lemma consistent_resume:
  assumes c: "consistent s" and p: "suspended s \<noteq> 0"
  shows "consistent (after (handleGenerate_resume r ctor s))"
  using handleGenerate_resume_cases[of r ctor s]
proof (elim disjE exE)
  fix e ac
  assume "handleGenerate_resume r ctor s =
       Inr (s\<lparr>suspended := suspended s - 1, audioContextRef := ac,
              console := console s @ [e], error := Some (error_text e),
              isGenerating := False\<rparr>)"
  then show ?thesis using consistent_failed[OF c p] by (simp add: after_def)
next
  fix ac b
  assume "handleGenerate_resume r ctor s =
       Inr (s\<lparr>suspended := suspended s - 1, audioContextRef := ac,
              nodes := nodes s @ [\<lparr>buffer = Some b, connected = True, status = Started,
                                    onended = Some SetIsPlayingFalse\<rparr>],
              sourceRef := Some (length (nodes s)), isPlaying := True,
              isGenerating := False\<rparr>)"
  then show ?thesis using consistent_played[OF c p] by (simp add: after_def)
qed

lemma dispatch_ended_Some:
  assumes "dispatch_ended n s = Some s'"
  shows "n < length (nodes s)"
    and "status (nodes s ! n) = Started \<or> status (nodes s ! n) = Stopped"
    and "nodes s' = (nodes s)[n := (nodes s ! n)\<lparr>status := Ended\<rparr>]"
    and "sourceRef s' = sourceRef s"
    and "isGenerating s' = isGenerating s"
    and "suspended s' = suspended s"
    and "isPlaying s' \<Longrightarrow> isPlaying s"
    and "ended_calls s' = ended_calls s \<or> ended_calls s' = ended_calls s @ [n]"
  using assms
  by (auto simp add: dispatch_ended_def Let_def split: if_splits option.splits handler.splits)

lemma consistent_ended:
  assumes c: "consistent s" and d: "dispatch_ended n s = Some s'"
  shows "consistent s'"
proof -
  note f = dispatch_ended_Some[OF d]
  have len: "length (nodes s') = length (nodes s)" by (simp add: f(3))
  have st: "status (nodes s' ! m) = (if m = n then Ended else status (nodes s ! m))"
    if "m < length (nodes s)" for m
    using that by (simp add: f(3) nth_list_update)
  have fresh: "n \<notin> set (ended_calls s)"
    using consistentD(8)[OF c, of n] f(2) by auto
  show ?thesis
  proof (rule consistentI)
    fix m assume "sourceRef s' = Some m"
    then show "m < length (nodes s')" using consistentD(1)[OF c, of m] by (simp add: f(4) len)
  next
    fix m assume "m < length (nodes s')" "status (nodes s' ! m) = Started"
    then show "sourceRef s' = Some m"
      using consistentD(2)[OF c, of m] by (simp add: len st f(4) split: if_splits)
  next
    assume "isPlaying s'"
    then show "sourceRef s' \<noteq> None" using f(7) consistentD(3)[OF c] by (simp add: f(4))
  next
    show "isGenerating s' \<longleftrightarrow> suspended s' = 1" using consistentD(4)[OF c] by (simp add: f(5,6))
  next
    show "suspended s' \<le> 1" using consistentD(5)[OF c] by (simp add: f(6))
  next
    fix m assume "isGenerating s'" "m < length (nodes s')"
    then show "status (nodes s' ! m) \<noteq> Started"
      using consistentD(6)[OF c, of m] by (simp add: len st f(5))
  next
    show "distinct (ended_calls s')" using f(8) consistentD(7)[OF c] fresh by auto
  next
    fix m assume m: "m \<in> set (ended_calls s')"
    show "m < length (nodes s') \<and> status (nodes s' ! m) = Ended"
    proof (cases "m = n")
      case True
      then show ?thesis using f(1) by (simp add: len st)
    next
      case False
      with m f(8) have "m \<in> set (ended_calls s)" by auto
      then show ?thesis using consistentD(8)[OF c, of m] by (simp add: len st)
    qed
  qed
qed

lemma consistent_text: "consistent (s\<lparr>text_state := t\<rparr>) = consistent s"
  by (simp add: consistent_def)

lemma consistent_voice: "consistent (s\<lparr>selectedVoice := v\<rparr>) = consistent s"
  by (simp add: consistent_def)

lemma consistent_fire:
  assumes c: "consistent s" and f: "fire e s = Some s'"
  shows "consistent s'"
proof (cases e)
  case (SetText t)
  then have "s' = s\<lparr>text_state := t\<rparr>" using f by simp
  then show ?thesis using c by (simp only: consistent_text)
next
  case (SelectVoice v)
  then have "s' = s\<lparr>selectedVoice := v\<rparr>" using f by simp
  then show ?thesis using c by (simp only: consistent_voice)
next
  case ClickGenerate
  have g: "\<not> isGenerating s" and t: "trim (text_state s) \<noteq> []"
    using f unfolding ClickGenerate by (simp_all split: if_splits)
  have "fire ClickGenerate s = Some ((after (stopPlayback s))
          \<lparr>error := None, isGenerating := True,
            requests := requests s @ [mk_parameters \<lparr>req_text = text_state s, voiceName = selectedVoice s\<rparr>],
            suspended := suspended s + 1\<rparr>)"
    using g t by (simp add: handleGenerate_begin_eq)
  with f have "s' = (after (stopPlayback s))
          \<lparr>error := None, isGenerating := True,
            requests := requests s @ [mk_parameters \<lparr>req_text = text_state s, voiceName = selectedVoice s\<rparr>],
            suspended := suspended s + 1\<rparr>"
    unfolding ClickGenerate by simp
  then show ?thesis using consistent_begin[OF c g] by simp
next
  case ClickStop
  have "s' = after (stopPlayback s)" using f unfolding ClickStop by (simp split: if_splits)
  then show ?thesis using consistent_stop[OF c] by simp
next
  case (Settle r ctor)
  have p: "suspended s \<noteq> 0" and "s' = after (handleGenerate_resume r ctor s)"
    using f unfolding Settle by (simp_all split: if_splits)
  then show ?thesis using consistent_resume[OF c p] by simp
next
  case (EndedEvent n)
  with f have "dispatch_ended n s = Some s'" by simp
  then show ?thesis using consistent_ended[OF c] by simp
qed

lemma reachable_consistent: "reachable s \<Longrightarrow> consistent s"
  by (induction rule: reachable.induct) (auto intro: consistent_initial consistent_fire)

lemma live_nodes_at_most_one:
  assumes "consistent s"
  shows "length (live_nodes s) \<le> 1"
proof -
  have d: "distinct (live_nodes s)" by (simp add: live_nodes_def)
  have a: "sourceRef s = Some n" if "n \<in> set (live_nodes s)" for n
    using that consistentD(2)[OF assms, of n] by (simp add: live_nodes_def)
  show ?thesis
  proof (cases "sourceRef s")
    case None
    then have "set (live_nodes s) = {}" using a by fastforce
    then show ?thesis by simp
  next
    case (Some m)
    then have "set (live_nodes s) \<subseteq> {m}" using a by fastforce
    then have "card (set (live_nodes s)) \<le> card {m}" by (intro card_mono) simp_all
    then show ?thesis using d by (simp add: distinct_card)
  qed
qed

lemmas eval_defs = initial_def js_def trim_def is_white_space_def handleGenerate_begin_def
  stopPlayback_def then_do_def try_catch_def try_finally_def call_node_def node_stop_def
  node_start_def mk_parameters_def handleGenerate_resume_def handleGenerate_try_def
  generateCaribbeanSpeech_resume_def extract_audio_def opt_chain_def opt_first_def
  audio_response_def ensure_context_def decodeBase64_def b64_value_def b64_pad_def
  quantum_bytes_def play_buffer_def after_def dispatch_ended_def Let_def
  handleGenerate_catch_def error_text_def handleGenerate_def example_playing_def

lemma run_example_playing:
  "run [SetText (js ''hi''), ClickGenerate, Settle (Inr (audio_response (js ''AID/fw==''))) None]
     initial = Some example_playing"
  by (simp add: eval_defs)

lemma run_reachable: "reachable s \<Longrightarrow> run es s = Some s' \<Longrightarrow> reachable s'"
proof (induction es arbitrary: s)
  case Nil
  then show ?case by simp
next
  case (Cons e es)
  then show ?case by (auto split: option.splits intro: reachable_fire)
qed

lemma reachable_example_playing: "reachable example_playing"
  using run_reachable[OF reachable_initial run_example_playing] .

lemma stopPlayback_active:
  assumes "sourceRef s = Some n" "n < length (nodes s)" "status (nodes s ! n) = Started"
  shows "stopPlayback s =
     Inr (s\<lparr>nodes := (nodes s)[n := (nodes s ! n)\<lparr>status := Stopped\<rparr>],
            sourceRef := None, isPlaying := False\<rparr>)"
  using assms by (simp add: stopPlayback_eq)

lemma handleGenerate_plays:
  assumes t: "trim (text_state s) \<noteq> []"
    and r: "remote (mk_parameters \<lparr>req_text = text_state s, voiceName = selectedVoice s\<rparr>)
             = Inr response"
    and x: "extract_audio response = Some b" "b \<noteq> []"
    and k: "audioContextRef s \<noteq> None \<or> ctor = None"
    and d: "decodeBase64 b = Inr bytes"
  shows "handleGenerate remote ctor s =
     Inr ((after (stopPlayback s))
       \<lparr>error := None,
         audioContextRef := Some (case audioContextRef s of
                                    None \<Rightarrow> \<lparr>ctx_sampleRate = 24000\<rparr> | Some c \<Rightarrow> c),
         requests := requests s @ [mk_parameters \<lparr>req_text = text_state s, voiceName = selectedVoice s\<rparr>],
         nodes := nodes (after (stopPlayback s))
                  @ [\<lparr>buffer = Some (toAudioBuffer bytes), connected = True,
                       status = Started, onended = Some SetIsPlayingFalse\<rparr>],
         sourceRef := Some (length (nodes s)), isPlaying := True, isGenerating := False\<rparr>)"
proof -
  define s1 where "s1 = (after (stopPlayback s))
          \<lparr>error := None, isGenerating := True,
            requests := requests s @ [mk_parameters \<lparr>req_text = text_state s, voiceName = selectedVoice s\<rparr>],
            suspended := suspended s + 1\<rparr>"
  have g: "generateCaribbeanSpeech_resume (Inr response) = Inr (Some b)"
    by (simp add: generateCaribbeanSpeech_resume_def x)
  have a: "audioContextRef s1 = audioContextRef s"
    by (simp add: s1_def after_stopPlayback)
  have k1: "audioContextRef s1 \<noteq> None \<or> ctor = None" using k a by simp
  have l: "length (nodes s1) = length (nodes s)"
    by (simp add: s1_def stopped_nodes_length)
  have "handleGenerate remote ctor s = handleGenerate_resume (Inr response) ctor s1"
    by (simp add: handleGenerate_def handleGenerate_begin_eq[OF t] r s1_def)
  also have "\<dots> = Inr (s1\<lparr>suspended := suspended s1 - 1,
            audioContextRef := Some (case audioContextRef s1 of
                                       None \<Rightarrow> \<lparr>ctx_sampleRate = 24000\<rparr> | Some c \<Rightarrow> c),
            nodes := nodes s1 @ [\<lparr>buffer = Some (toAudioBuffer bytes), connected = True,
                                  status = Started, onended = Some SetIsPlayingFalse\<rparr>],
            sourceRef := Some (length (nodes s1)), isPlaying := True,
            isGenerating := False\<rparr>)"
    by (rule resume_plays[OF g x(2) k1 d])
  also have "\<dots> = Inr ((after (stopPlayback s))
       \<lparr>error := None,
         audioContextRef := Some (case audioContextRef s of
                                    None \<Rightarrow> \<lparr>ctx_sampleRate = 24000\<rparr> | Some c \<Rightarrow> c),
         requests := requests s @ [mk_parameters \<lparr>req_text = text_state s, voiceName = selectedVoice s\<rparr>],
         nodes := nodes (after (stopPlayback s))
                  @ [\<lparr>buffer = Some (toAudioBuffer bytes), connected = True,
                       status = Started, onended = Some SetIsPlayingFalse\<rparr>],
         sourceRef := Some (length (nodes s)), isPlaying := True, isGenerating := False\<rparr>)"
    unfolding a l by (simp add: s1_def stopped_fields)
  finally show ?thesis .
qed

section \<open>Claims about stopPlayback and handleGenerate\<close>

text \<open>
  Claim C4. stopPlayback never throws and always ends in the Idle state with an empty
  slot: with no node in the slot and the state Idle it changes nothing, and a node that
  was never started (whose stop() throws) or that has already stopped or ended is left as
  it is. In a state that the component can reach, an empty slot alone makes it a no-op.
\<close>

theorem stopPlayback_never_throws:
  "\<exists>s'. stopPlayback s = Inr s' \<and> \<not> isPlaying s' \<and> sourceRef s' = None
     \<and> (sourceRef s = None \<and> \<not> isPlaying s \<longrightarrow> s' = s)
     \<and> (reachable s \<and> sourceRef s = None \<longrightarrow> s' = s)
     \<and> (\<forall>n. sourceRef s = Some n \<and> n < length (nodes s) \<and> status (nodes s ! n) \<noteq> Started
            \<longrightarrow> nodes s' = nodes s)"
proof -
  have "\<not> isPlaying s" if "reachable s" "sourceRef s = None"
    using consistentD(3)[OF reachable_consistent[OF that(1)]] that(2) by blast
  then show ?thesis by (auto simp add: stopPlayback_eq)
qed

theorem stopPlayback_never_throws_witness:
  "stopPlayback initial = Inr initial
   \<and> stopPlayback
        (initial\<lparr>sourceRef := Some 0,
                 nodes := [\<lparr>buffer = None, connected = True, status = Unstarted, onended = None\<rparr>]\<rparr>)
       = Inr (initial\<lparr>nodes := [\<lparr>buffer = None, connected = True, status = Unstarted,
                                    onended = None\<rparr>]\<rparr>)
   \<and> stopPlayback
        (initial\<lparr>sourceRef := Some 0,
                 nodes := [\<lparr>buffer = None, connected = True, status = Ended,
                            onended = Some SetIsPlayingFalse\<rparr>]\<rparr>)
       = Inr (initial\<lparr>nodes := [\<lparr>buffer = None, connected = True, status = Ended,
                                    onended = Some SetIsPlayingFalse\<rparr>]\<rparr>)"
  using stopPlayback_never_throws[of initial]
    stopPlayback_never_throws[of "initial\<lparr>sourceRef := Some 0,
                 nodes := [\<lparr>buffer = None, connected = True, status = Unstarted, onended = None\<rparr>]\<rparr>"]
    stopPlayback_never_throws[of "initial\<lparr>sourceRef := Some 0,
                 nodes := [\<lparr>buffer = None, connected = True, status = Ended,
                            onended = Some SetIsPlayingFalse\<rparr>]\<rparr>"]
  by (simp add: initial_def stopPlayback_def then_do_def try_catch_def call_node_def node_stop_def)

text \<open>
  Claim C10. When the text is empty or consists of white space only, handleGenerate sets
  the error message and returns at once: no request is issued, nothing is suspended, and
  the nodes, the slot, the playing state and the audio context are unchanged.
\<close>

theorem handleGenerate_blank_text:
  assumes "\<forall>c \<in> set (text_state s). is_white_space c"
  shows "handleGenerate_begin s =
           Returned (Inr (s\<lparr>error := Some (js ''Please enter some text first.'')\<rparr>))
     \<and> handleGenerate remote ctor s = Inr (s\<lparr>error := Some (js ''Please enter some text first.'')\<rparr>)
     \<and> requests (after (handleGenerate remote ctor s)) = requests s
     \<and> suspended (after (handleGenerate remote ctor s)) = suspended s
     \<and> nodes (after (handleGenerate remote ctor s)) = nodes s
     \<and> sourceRef (after (handleGenerate remote ctor s)) = sourceRef s
     \<and> isPlaying (after (handleGenerate remote ctor s)) = isPlaying s
     \<and> isGenerating (after (handleGenerate remote ctor s)) = isGenerating s
     \<and> audioContextRef (after (handleGenerate remote ctor s)) = audioContextRef s"
proof -
  from assms have "trim (text_state s) = []" by (simp add: trim_empty_iff)
  then have b: "handleGenerate_begin s =
           Returned (Inr (s\<lparr>error := Some (js ''Please enter some text first.'')\<rparr>))"
    by (simp add: handleGenerate_begin_def)
  then show ?thesis by (simp add: handleGenerate_def after_def)
qed

theorem handleGenerate_blank_text_witness:
  "handleGenerate (\<lambda>p. Inr (audio_response (js ''AID/fw==''))) None
     (initial\<lparr>text_state := [0x20, 0x9, 0xA0], isPlaying := True, sourceRef := Some 0,
              nodes := [\<lparr>buffer = None, connected = True, status = Started,
                         onended = Some SetIsPlayingFalse\<rparr>]\<rparr>)
   = Inr (initial\<lparr>text_state := [0x20, 0x9, 0xA0], isPlaying := True, sourceRef := Some 0,
              nodes := [\<lparr>buffer = None, connected = True, status = Started,
                         onended = Some SetIsPlayingFalse\<rparr>],
              error := Some (js ''Please enter some text first.'')\<rparr>)"
proof -
  have w: "\<forall>c \<in> set (text_state (initial\<lparr>text_state := [0x20, 0x9, 0xA0], isPlaying := True,
              sourceRef := Some 0,
              nodes := [\<lparr>buffer = None, connected = True, status = Started,
                         onended = Some SetIsPlayingFalse\<rparr>]\<rparr>)). is_white_space c"
    by (simp add: is_white_space_def)
  show ?thesis using handleGenerate_blank_text[OF w] by simp
qed

text \<open>
  Claim C1, as stated, fails: after a click on stop the platform dispatches the ended
  event of the stopped node, and the handler attached by handleGenerate (never detached
  by stopPlayback) runs for node 0, which was stopped and did not play to its end.
\<close>

theorem stop_then_ended_runs_handler:
  "map_option (map status \<circ> nodes)
     (run [SetText (js ''hi''), ClickGenerate,
           Settle (Inr (audio_response (js ''AID/fw==''))) None, ClickStop] initial) = Some [Stopped]
   \<and> map_option ended_calls
     (run [SetText (js ''hi''), ClickGenerate,
           Settle (Inr (audio_response (js ''AID/fw==''))) None, ClickStop] initial) = Some []
   \<and> map_option (map status \<circ> nodes)
     (run [SetText (js ''hi''), ClickGenerate,
           Settle (Inr (audio_response (js ''AID/fw==''))) None, ClickStop, EndedEvent 0] initial)
       = Some [Ended]
   \<and> map_option ended_calls
     (run [SetText (js ''hi''), ClickGenerate,
           Settle (Inr (audio_response (js ''AID/fw==''))) None, ClickStop, EndedEvent 0] initial)
       = Some [0]"
  by (simp add: eval_defs)

text \<open>
  Claim C1, amended. In every state with an active handle (the slot refers to a started
  node) stopPlayback completes normally, halts that node, empties the slot and sets the
  state to Idle, and does not itself run the node's onended handler. The handler stays
  attached: the ended event that the platform then dispatches for the stopped node runs
  it, once, and the state stays Idle.
\<close>

theorem stopPlayback_active_handle:
  assumes "sourceRef s = Some n" "n < length (nodes s)" "status (nodes s ! n) = Started"
  shows "\<exists>s'. stopPlayback s = Inr s'
     \<and> status (nodes s' ! n) = Stopped
     \<and> sourceRef s' = None \<and> \<not> isPlaying s'
     \<and> ended_calls s' = ended_calls s
     \<and> onended (nodes s' ! n) = onended (nodes s ! n)
     \<and> (onended (nodes s ! n) = Some SetIsPlayingFalse \<longrightarrow>
          (\<exists>s''. dispatch_ended n s' = Some s'' \<and> ended_calls s'' = ended_calls s @ [n]
             \<and> \<not> isPlaying s'' \<and> sourceRef s'' = None))"
  using assms(2)
  by (simp add: stopPlayback_active[OF assms] dispatch_ended_def Let_def)

theorem stopPlayback_active_handle_witness:
  "stopPlayback example_playing =
     Inr (example_playing\<lparr>
            nodes := [\<lparr> buffer = Some (toAudioBuffer [0x00, 0x80, 0xFF, 0x7F]),
                        connected = True, status = Stopped,
                        onended = Some SetIsPlayingFalse \<rparr>],
            sourceRef := None, isPlaying := False\<rparr>)
   \<and> map_option ended_calls
        (dispatch_ended 0 (example_playing\<lparr>
            nodes := [\<lparr> buffer = Some (toAudioBuffer [0x00, 0x80, 0xFF, 0x7F]),
                        connected = True, status = Stopped,
                        onended = Some SetIsPlayingFalse \<rparr>],
            sourceRef := None, isPlaying := False\<rparr>)) = Some [0]"
proof -
  have a: "sourceRef example_playing = Some 0" "0 < length (nodes example_playing)"
    "status (nodes example_playing ! 0) = Started"
    by (simp_all add: example_playing_def initial_def)
  show ?thesis
    using stopPlayback_active_handle[OF a]
    by (simp add: eval_defs)
qed

text \<open>
  Claim C2, as stated, fails: while the new request is pending the state is Idle, not
  Playing, and the ended event of the node that was stopped runs its handler.
\<close>

theorem regenerate_goes_idle:
  "map_option isPlaying
     (run [SetText (js ''hi''), ClickGenerate,
           Settle (Inr (audio_response (js ''AID/fw==''))) None] initial) = Some True
   \<and> map_option isPlaying
     (run [SetText (js ''hi''), ClickGenerate,
           Settle (Inr (audio_response (js ''AID/fw==''))) None, ClickGenerate] initial) = Some False
   \<and> map_option suspended
     (run [SetText (js ''hi''), ClickGenerate,
           Settle (Inr (audio_response (js ''AID/fw==''))) None, ClickGenerate] initial) = Some 1
   \<and> map_option ended_calls
     (run [SetText (js ''hi''), ClickGenerate,
           Settle (Inr (audio_response (js ''AID/fw==''))) None, ClickGenerate, EndedEvent 0] initial)
       = Some [0]"
  by (simp add: eval_defs)

text \<open>
  Claim C2, amended. In every state with an active handle, handleGenerate with non-blank
  text first stops the previous node through stopPlayback, without itself running that
  node's handler, and the state is Idle with an empty slot while the request is pending.
  When the service answers with audio that decodes, the call completes normally: a new
  node holding the decoded buffer is in the slot and started, the previous node is
  stopped, and the state is Playing. In every state that the component can reach through
  its events (the generate button is disabled while a request is pending) at most one
  node is live.
\<close>

theorem handleGenerate_while_playing:
  assumes p: "sourceRef s = Some n" "n < length (nodes s)" "status (nodes s ! n) = Started"
    and t: "trim (text_state s) \<noteq> []"
    and r: "remote (mk_parameters \<lparr>req_text = text_state s, voiceName = selectedVoice s\<rparr>)
             = Inr response"
    and x: "extract_audio response = Some b" "b \<noteq> []"
    and k: "audioContextRef s \<noteq> None \<or> ctor = None"
    and d: "decodeBase64 b = Inr bytes"
  shows "(\<exists>q s1. handleGenerate_begin s = Awaiting q s1
           \<and> status (nodes s1 ! n) = Stopped \<and> sourceRef s1 = None \<and> \<not> isPlaying s1
           \<and> ended_calls s1 = ended_calls s)
     \<and> (\<exists>s'. handleGenerate remote ctor s = Inr s'
           \<and> status (nodes s' ! n) = Stopped
           \<and> ended_calls s' = ended_calls s
           \<and> sourceRef s' = Some (length (nodes s))
           \<and> status (nodes s' ! length (nodes s)) = Started
           \<and> buffer (nodes s' ! length (nodes s)) = Some (toAudioBuffer bytes)
           \<and> isPlaying s')
     \<and> (\<forall>u. reachable u \<longrightarrow> length (live_nodes u) \<le> 1)"
proof (intro conjI)
  have st: "status (nodes (after (stopPlayback s)) ! n) = Stopped"
    using p by (simp add: stopped_nodes_status)
  show "\<exists>q s1. handleGenerate_begin s = Awaiting q s1
           \<and> status (nodes s1 ! n) = Stopped \<and> sourceRef s1 = None \<and> \<not> isPlaying s1
           \<and> ended_calls s1 = ended_calls s"
    using st by (simp add: handleGenerate_begin_eq[OF t] stopped_fields)
  show "\<exists>s'. handleGenerate remote ctor s = Inr s'
           \<and> status (nodes s' ! n) = Stopped
           \<and> ended_calls s' = ended_calls s
           \<and> sourceRef s' = Some (length (nodes s))
           \<and> status (nodes s' ! length (nodes s)) = Started
           \<and> buffer (nodes s' ! length (nodes s)) = Some (toAudioBuffer bytes)
           \<and> isPlaying s'"
    using st p(2)
    by (simp add: handleGenerate_plays[where remote=remote, OF t r x k d] stopped_fields nth_append
        stopped_nodes_length)
  show "\<forall>u. reachable u \<longrightarrow> length (live_nodes u) \<le> 1"
    using live_nodes_at_most_one reachable_consistent by blast
qed

theorem handleGenerate_while_playing_witness:
  "handleGenerate (\<lambda>q. Inr (audio_response (js ''AID/'')))  None example_playing =
     Inr (example_playing\<lparr>
            nodes := [\<lparr> buffer = Some (toAudioBuffer [0x00, 0x80, 0xFF, 0x7F]),
                        connected = True, status = Stopped,
                        onended = Some SetIsPlayingFalse \<rparr>,
                      \<lparr> buffer = Some (toAudioBuffer [0x00, 0x80, 0xFF]),
                        connected = True, status = Started,
                        onended = Some SetIsPlayingFalse \<rparr>],
            sourceRef := Some 1,
            requests := [mk_parameters \<lparr>req_text = js ''hi'', voiceName = Kore\<rparr>,
                         mk_parameters \<lparr>req_text = js ''hi'', voiceName = Kore\<rparr>]\<rparr>)
   \<and> live_nodes example_playing = [0]"
proof -
  have a: "sourceRef example_playing = Some 0" "0 < length (nodes example_playing)"
    "status (nodes example_playing ! 0) = Started"
    "trim (text_state example_playing) \<noteq> []"
    "(\<lambda>q. Inr (audio_response (js ''AID/'')))
       (mk_parameters \<lparr>req_text = text_state example_playing,
                        voiceName = selectedVoice example_playing\<rparr>)
      = Inr (audio_response (js ''AID/''))"
    "extract_audio (audio_response (js ''AID/'')) = Some (js ''AID/'')" "js ''AID/'' \<noteq> []"
    "audioContextRef example_playing \<noteq> None \<or> (None :: js_error option) = None"
    "decodeBase64 (js ''AID/'') = Inr [0x00, 0x80, 0xFF]"
    by (simp_all add: eval_defs)
  show ?thesis
    using handleGenerate_while_playing[OF a]
    by (simp add: eval_defs live_nodes_def)
qed

text \<open>
  Claim C3, as stated, fails: after a playback has reached the end of its buffer the slot
  still refers to the finished node.
\<close>

theorem natural_end_keeps_slot:
  "map_option sourceRef
     (run [SetText (js ''hi''), ClickGenerate,
           Settle (Inr (audio_response (js ''AID/fw==''))) None, EndedEvent 0] initial) = Some (Some 0)
   \<and> map_option isPlaying
     (run [SetText (js ''hi''), ClickGenerate,
           Settle (Inr (audio_response (js ''AID/fw==''))) None, EndedEvent 0] initial) = Some False
   \<and> map_option ended_calls
     (run [SetText (js ''hi''), ClickGenerate,
           Settle (Inr (audio_response (js ''AID/fw==''))) None, EndedEvent 0] initial) = Some [0]"
  by (simp add: eval_defs)

text \<open>
  Claim C3, amended. When a node started by handleGenerate reaches the end of its buffer
  without a stop, the ended event runs its handler: the state becomes Idle, the handler
  has then run exactly once for that node, and the event cannot be dispatched to the node
  again. The slot is not cleared: it refers to the same node as before.
\<close>

theorem natural_completion:
  assumes "n < length (nodes s)" "status (nodes s ! n) = Started"
    "onended (nodes s ! n) = Some SetIsPlayingFalse" "reachable s"
  shows "\<exists>s'. dispatch_ended n s = Some s'
     \<and> \<not> isPlaying s'
     \<and> status (nodes s' ! n) = Ended
     \<and> ended_calls s' = ended_calls s @ [n]
     \<and> count_list (ended_calls s') n = 1
     \<and> dispatch_ended n s' = None
     \<and> sourceRef s' = sourceRef s"
proof -
  have c: "consistent s" using assms(4) by (rule reachable_consistent)
  have "n \<notin> set (ended_calls s)"
    using consistentD(8)[OF c, of n] assms(2) by auto
  then have "count_list (ended_calls s) n = 0" by (simp add: count_list_0_iff)
  then show ?thesis using assms(1-3)
    by (simp add: dispatch_ended_def Let_def)
qed

theorem natural_completion_witness:
  "reachable example_playing
   \<and> dispatch_ended 0 example_playing =
       Some (example_playing\<lparr>
            nodes := [\<lparr> buffer = Some (toAudioBuffer [0x00, 0x80, 0xFF, 0x7F]),
                        connected = True, status = Ended,
                        onended = Some SetIsPlayingFalse \<rparr>],
            isPlaying := False, ended_calls := [0]\<rparr>)
   \<and> sourceRef example_playing = Some 0"
proof -
  have a: "0 < length (nodes example_playing)" "status (nodes example_playing ! 0) = Started"
    "onended (nodes example_playing ! 0) = Some SetIsPlayingFalse"
    by (simp_all add: example_playing_def initial_def)
  show ?thesis
    using natural_completion[OF a reachable_example_playing] reachable_example_playing
    by (simp add: eval_defs)
qed

text \<open>
  Claim C5, as stated, fails: when the audio context cannot be constructed, the call
  completes normally (nothing reaches the caller) and the state changes: the exception
  is logged and its message becomes the error shown.
\<close>

theorem context_failure_is_caught:
  "handleGenerate (\<lambda>p. Inr (audio_response (js ''AID/fw=='')))
     (Some (JsError (js ''NotSupportedError'') (Some (js ''no audio output''))))
     (initial\<lparr>text_state := js ''hi''\<rparr>)
   = Inr (initial\<lparr>text_state := js ''hi'',
           error := Some (js ''no audio output''),
           requests := [mk_parameters \<lparr>req_text = js ''hi'', voiceName = Kore\<rparr>],
           console := [JsError (js ''NotSupportedError'') (Some (js ''no audio output''))]\<rparr>)"
  by (simp add: eval_defs)

text \<open>
  Claim C5, amended. If, with non-blank text, audio returned by the service and no audio
  context yet, the constructor of the audio context throws, then handleGenerate catches
  the exception and completes normally: the previous playback (if any) has been stopped,
  the request is recorded, the exception is logged, the error state is its message (or
  the default text), isGenerating is reset; the slot is empty, the state is Idle, there
  is still no audio context and no node has been created.
\<close>

theorem handleGenerate_context_failure:
  assumes t: "trim (text_state s) \<noteq> []"
    and r: "remote (mk_parameters \<lparr>req_text = text_state s, voiceName = selectedVoice s\<rparr>)
             = Inr response"
    and x: "extract_audio response = Some b" "b \<noteq> []"
    and k: "audioContextRef s = None"
  shows "handleGenerate remote (Some e) s =
     Inr ((after (stopPlayback s))
       \<lparr>error := Some (error_text e), isGenerating := False,
         requests := requests s @ [mk_parameters \<lparr>req_text = text_state s, voiceName = selectedVoice s\<rparr>],
         console := console s @ [e]\<rparr>)
     \<and> sourceRef (after (handleGenerate remote (Some e) s)) = None
     \<and> \<not> isPlaying (after (handleGenerate remote (Some e) s))
     \<and> audioContextRef (after (handleGenerate remote (Some e) s)) = None
     \<and> length (nodes (after (handleGenerate remote (Some e) s))) = length (nodes s)"
proof -
  define s1 where "s1 = (after (stopPlayback s))
          \<lparr>error := None, isGenerating := True,
            requests := requests s @ [mk_parameters \<lparr>req_text = text_state s, voiceName = selectedVoice s\<rparr>],
            suspended := suspended s + 1\<rparr>"
  have g: "generateCaribbeanSpeech_resume (Inr response) = Inr (Some b)"
    by (simp add: generateCaribbeanSpeech_resume_def x)
  have a: "audioContextRef s1 = None"
    by (simp add: s1_def after_stopPlayback k)
  have "handleGenerate remote (Some e) s = handleGenerate_resume (Inr response) (Some e) s1"
    by (simp add: handleGenerate_def handleGenerate_begin_eq[OF t] r s1_def)
  also have "\<dots> = Inr (s1\<lparr>suspended := suspended s1 - 1, console := console s1 @ [e],
            error := Some (error_text e), isGenerating := False\<rparr>)"
    by (rule resume_no_context[OF g x(2) a])
  also have "\<dots> = Inr ((after (stopPlayback s))
       \<lparr>error := Some (error_text e), isGenerating := False,
         requests := requests s @ [mk_parameters \<lparr>req_text = text_state s, voiceName = selectedVoice s\<rparr>],
         console := console s @ [e]\<rparr>)"
    by (simp add: s1_def after_stopPlayback)
  finally have h: "handleGenerate remote (Some e) s = Inr ((after (stopPlayback s))
       \<lparr>error := Some (error_text e), isGenerating := False,
         requests := requests s @ [mk_parameters \<lparr>req_text = text_state s, voiceName = selectedVoice s\<rparr>],
         console := console s @ [e]\<rparr>)" .
  have c: "audioContextRef (after (stopPlayback s)) = None"
    by (simp add: after_stopPlayback k)
  have i: "after (Inr y) = y" for y :: app by (simp add: after_def)
  show ?thesis unfolding h i
    by (simp add: stopped_fields stopped_nodes_length c)
qed

theorem handleGenerate_context_failure_witness:
  "handleGenerate (\<lambda>p. Inr (audio_response (js ''AID/fw=='')))
     (Some (JsError (js ''NotSupportedError'') None)) (initial\<lparr>text_state := js ''yo''\<rparr>)
   = Inr (initial\<lparr>text_state := js ''yo'',
           error := Some (js ''An error occurred during speech generation.''),
           requests := [mk_parameters \<lparr>req_text = js ''yo'', voiceName = Kore\<rparr>],
           console := [JsError (js ''NotSupportedError'') None]\<rparr>)"
proof -
  have a: "trim (text_state (initial\<lparr>text_state := js ''yo''\<rparr>)) \<noteq> []"
    "(\<lambda>p. Inr (audio_response (js ''AID/fw=='')))
       (mk_parameters \<lparr>req_text = text_state (initial\<lparr>text_state := js ''yo''\<rparr>),
                        voiceName = selectedVoice (initial\<lparr>text_state := js ''yo''\<rparr>)\<rparr>)
      = Inr (audio_response (js ''AID/fw==''))"
    "extract_audio (audio_response (js ''AID/fw=='')) = Some (js ''AID/fw=='')"
    "js ''AID/fw=='' \<noteq> []"
    "audioContextRef (initial\<lparr>text_state := js ''yo''\<rparr>) = None"
    by (simp_all add: eval_defs)
  show ?thesis
    using handleGenerate_context_failure[OF a, of "JsError (js ''NotSupportedError'') None"]
    by (simp add: eval_defs)
qed

section \<open>Properties of generateCaribbeanSpeech\<close>

lemma extract_audio_absent_iff: "extract_audio response = None \<longleftrightarrow> audio_absent response"
  by (simp add: extract_audio_def audio_absent_def opt_chain_def opt_first_def
      split: option.splits list.splits)

text \<open>
  Claim C9. Whenever the remote call answers with a response in which the chain
  candidates[0].content.parts[0].inlineData.data is absent at some level, the function
  returns normally and its value is undefined; it does not throw.
\<close>

theorem generateCaribbeanSpeech_absent_undefined:
  "remote (mk_parameters r) = Inr response \<Longrightarrow> audio_absent response
     \<Longrightarrow> generateCaribbeanSpeech remote r = Inr None"
  by (simp add: generateCaribbeanSpeech_def generateCaribbeanSpeech_resume_def
      extract_audio_absent_iff)

theorem generateCaribbeanSpeech_absent_undefined_witness:
  "audio_absent \<lparr>candidates = Some [\<lparr>content = Some \<lparr>parts = Some []\<rparr>\<rparr>]\<rparr>
   \<and> generateCaribbeanSpeech
        (\<lambda>_. Inr \<lparr>candidates = Some [\<lparr>content = Some \<lparr>parts = Some []\<rparr>\<rparr>]\<rparr>)
        \<lparr>req_text = js ''hi'', voiceName = Kore\<rparr> = Inr None"
proof -
  have a: "audio_absent \<lparr>candidates = Some [\<lparr>content = Some \<lparr>parts = Some []\<rparr>\<rparr>]\<rparr>"
    by (simp add: audio_absent_def)
  show ?thesis
    using a generateCaribbeanSpeech_absent_undefined
      [of "\<lambda>_. Inr \<lparr>candidates = Some [\<lparr>content = Some \<lparr>parts = Some []\<rparr>\<rparr>]\<rparr>" _ _, OF refl a]
    by simp
qed

end
